theory Spec2Isabelle
  imports Main "HOL-Library.Monad_Syntax"
begin

unbundle bit_operations_syntax

section \<open>Python primitives used by main.pyw\<close>

text \<open>
  Python integers are unbounded and are modelled by \<open>int\<close>. The operators \<open>&\<close>, \<open>|\<close> and
  \<open>~\<close> act on the infinite two's-complement representation, exactly as \<open>AND\<close>, \<open>OR\<close> and
  \<open>NOT\<close> do on \<open>int\<close>; \<open>%\<close> takes the sign of the divisor, as \<open>mod\<close> does.
  The shifts \<open>a << n\<close> and \<open>a >> n\<close> raise ValueError for a negative count; a raised
  exception is the value \<open>None\<close>.
\<close>

definition py_lshift :: "int \<Rightarrow> int \<Rightarrow> int option" where
  "py_lshift a n = (if n < 0 then None else Some (push_bit (nat n) a))"

definition py_rshift :: "int \<Rightarrow> int \<Rightarrow> int option" where
  "py_rshift a n = (if n < 0 then None else Some (drop_bit (nat n) a))"

text \<open>
  Text is modelled for ASCII only: a \<open>char\<close> below 128 is the ASCII character of that
  code. On ASCII text the definitions below agree with \<open>str.strip()\<close> and \<open>int()\<close>. On
  other text they do not: Python also strips Unicode blanks such as U+0085 and U+00A0 and
  reads Unicode decimal digits, where this model sees characters that are neither blanks
  nor digits. Every statement below about what is rejected is therefore made for ASCII
  text only (\<open>ascii_text\<close>). \<open>str_isspace\<close> is \<open>str.isspace\<close> on one ASCII character (the
  set that \<open>str.strip()\<close> removes); \<open>py_isspace\<close> is the narrower C-level test that
  \<open>int()\<close> applies to an ASCII string.
\<close>

definition str_isspace :: "char \<Rightarrow> bool" where
  "str_isspace c = (let n = (of_char c :: nat) in (9 \<le> n \<and> n \<le> 13) \<or> (28 \<le> n \<and> n \<le> 32))"

definition py_isspace :: "char \<Rightarrow> bool" where
  "py_isspace c = (let n = (of_char c :: nat) in (9 \<le> n \<and> n \<le> 13) \<or> n = 32)"

definition py_strip :: "string \<Rightarrow> string" where
  "py_strip s = rev (dropWhile str_isspace (rev (dropWhile str_isspace s)))"


text \<open>The digit table of \<open>int()\<close>: 0-9, then a-z and A-Z for 10-35, and 37 for any other character.\<close>

definition digit_value :: "char \<Rightarrow> nat" where
  "digit_value c =
     (let n = (of_char c :: nat) in
      if 48 \<le> n \<and> n \<le> 57 then n - 48
      else if 97 \<le> n \<and> n \<le> 122 then n - 87
      else if 65 \<le> n \<and> n \<le> 90 then n - 55
      else 37)"

text \<open>
  With an explicit base 16, 8 or 2, \<open>int()\<close> skips a prefix \<open>0x\<close>, \<open>0o\<close> or \<open>0b\<close> (either
  case) and one underscore after it.
\<close>

definition is_base_prefix :: "nat \<Rightarrow> char \<Rightarrow> char \<Rightarrow> bool" where
  "is_base_prefix base c0 c1 =
     (c0 = CHR ''0'' \<and>
      ((base = 16 \<and> (c1 = CHR ''x'' \<or> c1 = CHR ''X'')) \<or>
       (base = 8 \<and> (c1 = CHR ''o'' \<or> c1 = CHR ''O'')) \<or>
       (base = 2 \<and> (c1 = CHR ''b'' \<or> c1 = CHR ''B''))))"

fun skip_one_underscore :: "string \<Rightarrow> string" where
  "skip_one_underscore (u # r) = (if u = CHR ''_'' then r else u # r)"
| "skip_one_underscore [] = []"

fun skip_base_prefix :: "nat \<Rightarrow> string \<Rightarrow> string" where
  "skip_base_prefix base (c0 # c1 # rest) =
     (if is_base_prefix base c0 c1 then skip_one_underscore rest else c0 # c1 # rest)"
| "skip_base_prefix base s = s"

text \<open>
  The digit scan of \<open>int()\<close>: digits of the base and single underscores between them.
  It returns the accumulated magnitude, the number of digits, the last character read and
  the unread rest; two underscores in a row are an error.
\<close>

fun scan_digits :: "nat \<Rightarrow> string \<Rightarrow> char \<Rightarrow> nat \<Rightarrow> nat \<Rightarrow> (nat \<times> nat \<times> char \<times> string) option" where
  "scan_digits base [] prev acc digits = Some (acc, digits, prev, [])"
| "scan_digits base (c # cs) prev acc digits =
     (if c = CHR ''_'' then
        (if prev = CHR ''_'' then None else scan_digits base cs c acc digits)
      else if digit_value c < base then
        scan_digits base cs c (acc * base + digit_value c) (Suc digits)
      else Some (acc, digits, prev, c # cs))"

definition split_sign :: "string \<Rightarrow> bool \<times> string" where
  "split_sign s =
     (case s of
        [] \<Rightarrow> (False, s)
      | c # cs \<Rightarrow> if c = CHR ''+'' then (False, cs)
                  else if c = CHR ''-'' then (True, cs)
                  else (False, s))"

text \<open>
  \<open>py_int max_str_digits base s\<close> is \<open>int(s, base)\<close> for the bases the program uses
  (16, 10, 8 and 2); \<open>None\<close> is ValueError. The first argument is the interpreter's limit
  on the digits of a string converted in a base that is not a power of two
  (\<open>sys.get_int_max_str_digits()\<close>; 4300 by default since Python 3.11, 0 for no limit,
  and never applied to 640 digits or fewer).
\<close>

definition py_int :: "nat \<Rightarrow> nat \<Rightarrow> string \<Rightarrow> int option" where
  "py_int max_str_digits base s =
     (let (neg, s2) = split_sign (dropWhile py_isspace s);
          s3 = skip_base_prefix base s2
      in if s3 \<noteq> [] \<and> hd s3 = CHR ''_'' then None
         else
           (case scan_digits base s3 (CHR 0x00) 0 0 of
              None \<Rightarrow> None
            | Some (acc, digits, prev, rest) \<Rightarrow>
                if prev = CHR ''_'' \<or> digits = 0 then None
                else if base \<notin> {2, 8, 16} \<and> 640 < digits \<and> 0 < max_str_digits \<and> max_str_digits < digits
                  then None
                else if dropWhile py_isspace rest \<noteq> [] then None
                else Some (if neg then - int acc else int acc)))"

text \<open>
  Formatting: \<open>str(n)\<close> and the format codes \<open>X\<close>, \<open>o\<close> and \<open>b\<close> write the digits of the
  magnitude, most significant first, after a minus sign for a negative number. The digit
  limit of the interpreter also applies to \<open>str(n)\<close>, but only above 640 digits; the
  program formats numbers below \<open>2 ^ (8 * num_bytes)\<close>, at most 20 digits for the widths
  of one to eight bytes, so the limit is left out of \<open>py_str\<close>.
\<close>

definition digit_char :: "nat \<Rightarrow> char" where
  "digit_char d = char_of (if d < 10 then 48 + d else 55 + d)"

function to_digits :: "nat \<Rightarrow> nat \<Rightarrow> string" where
  "to_digits b n =
     (if n < b \<or> b < 2 then [digit_char n]
      else to_digits b (n div b) @ [digit_char (n mod b)])"
  by pat_completeness auto
termination
  by (relation "measure snd") auto

declare to_digits.simps [simp del]

definition format_int :: "nat \<Rightarrow> int \<Rightarrow> string" where
  "format_int b n = (if n < 0 then CHR ''-'' # to_digits b (nat (- n)) else to_digits b (nat n))"

definition py_str :: "int \<Rightarrow> string" where
  "py_str n = format_int 10 n"

section \<open>The state of the BitCalc object\<close>

text \<open>
  One field for \<open>_current_value\<close>, one for \<open>_is_updating\<close>, and one for each Tk variable,
  holding the variable's value. Widgets, the status bar, the clipboard and the settings
  file are left out.
\<close>

record bit_calc =
  current_value :: int
  is_updating :: bool
  num_bytes_var :: int
  hex_var :: string
  dec_var :: string
  oct_var :: string
  bin_var :: string
  bit_vars :: "int list"
  signed_mode_var :: bool
  shift_amount_var :: int

datatype source = Hex | Dec | Oct | Bin

fun base_map :: "source \<Rightarrow> nat" where
  "base_map Hex = 16"
| "base_map Dec = 10"
| "base_map Oct = 8"
| "base_map Bin = 2"

fun var_map :: "source \<Rightarrow> bit_calc \<Rightarrow> string" where
  "var_map Hex st = hex_var st"
| "var_map Dec st = dec_var st"
| "var_map Oct st = oct_var st"
| "var_map Bin st = bin_var st"

section \<open>Validation callbacks\<close>






definition validate_shift_amount :: "nat \<Rightarrow> string \<Rightarrow> bool" where
  "validate_shift_amount max_str_digits P =
     (if P = [] then True
      else (case py_int max_str_digits 10 P of Some val \<Rightarrow> val \<ge> 0 | None \<Rightarrow> False))"

section \<open>Mask and display\<close>

definition get_mask :: "bit_calc \<Rightarrow> int option" where
  "get_mask st = do {
     let num_bits = num_bytes_var st * 8;
     p \<leftarrow> py_lshift 1 num_bits;
     Some (p - 1)
   }"

text \<open>
  \<open>_update_display\<close> writes the four text variables and the 64 bit variables from
  \<open>_current_value & mask\<close> and leaves \<open>_current_value\<close> itself alone. While it runs,
  \<open>_is_updating\<close> is set, so the write traces of the text variables return at once; the
  flag is cleared at the end. A result \<open>None\<close> means that the callback was left by an
  exception.
\<close>

definition signed_dec_text :: "int \<Rightarrow> int \<Rightarrow> string option" where
  "signed_dec_text display_value num_bits = do {
     top \<leftarrow> py_rshift display_value (num_bits - 1);
     if top AND 1 \<noteq> 0 then do {
       p \<leftarrow> py_lshift 1 num_bits;
       let signed_val = display_value - p;
       Some (py_str signed_val)
     } else Some (py_str display_value)
   }"

definition bit_states :: "int \<Rightarrow> int \<Rightarrow> int list" where
  "bit_states display_value num_bits =
     map (\<lambda>i. if int i < num_bits then (if drop_bit i display_value AND 1 \<noteq> 0 then 1 else 0) else 0)
       [0..<64]"

definition update_display :: "bit_calc \<Rightarrow> bit_calc option" where
  "update_display st = do {
     mask \<leftarrow> get_mask st;
     let display_value = current_value st AND mask;
     let num_bits = num_bytes_var st * 8;
     dec \<leftarrow> (if signed_mode_var st then signed_dec_text display_value num_bits
             else Some (py_str display_value));
     Some (st\<lparr> is_updating := False,
               hex_var := format_int 16 display_value,
               dec_var := dec,
               oct_var := format_int 8 display_value,
               bin_var := (if num_bits > 0 \<or> display_value > 0 then format_int 2 display_value else ''0''),
               bit_vars := bit_states display_value num_bits \<rparr>)
   }"

section \<open>Text entry, bit boxes and width\<close>

text \<open>
  The body of the \<open>try\<close> block of \<open>_update_from_entry\<close>: the new value, or \<open>None\<close> when
  ValueError is raised (by \<open>int()\<close> or by a negative shift count) and caught.
\<close>

definition entry_value :: "nat \<Rightarrow> source \<Rightarrow> bit_calc \<Rightarrow> string \<Rightarrow> int option" where
  "entry_value max_str_digits src st value_str =
     (if src = Dec \<and> signed_mode_var st then do {
        num_val \<leftarrow> py_int max_str_digits 10 value_str;
        let num_bits = num_bytes_var st * 8;
        if num_val < 0 then do {
          half \<leftarrow> py_lshift 1 (num_bits - 1);
          if num_val \<ge> - half then do {
            p \<leftarrow> py_lshift 1 num_bits;
            Some (p + num_val)
          } else do {
            mask \<leftarrow> get_mask st;
            Some (num_val AND mask)
          }
        } else do {
          half \<leftarrow> py_lshift 1 (num_bits - 1);
          if num_val < half then Some num_val
          else do {
            mask \<leftarrow> get_mask st;
            Some (num_val AND mask)
          }
        }
      } else py_int max_str_digits (base_map src) value_str)"

definition update_from_entry :: "nat \<Rightarrow> source \<Rightarrow> bit_calc \<Rightarrow> bit_calc option" where
  "update_from_entry max_str_digits src st =
     (if is_updating st then Some st
      else
        let value_str = py_strip (var_map src st) in
        update_display
          (if value_str = [] then st\<lparr> current_value := 0 \<rparr>
           else (case entry_value max_str_digits src st value_str of
                   Some v \<Rightarrow> st\<lparr> current_value := v \<rparr>
                 | None \<Rightarrow> st)))"

definition update_from_bits :: "bit_calc \<Rightarrow> bit_calc option" where
  "update_from_bits st =
     (if is_updating st then Some st
      else
        let new_value =
              fold (\<lambda>(i, var) acc. if var = 1 then acc OR push_bit i 1 else acc)
                (enumerate 0 (bit_vars st)) 0
        in update_display (st\<lparr> current_value := new_value \<rparr>))"

definition on_num_bytes_change :: "bit_calc \<Rightarrow> bit_calc option" where
  "on_num_bytes_change st = do {
     new_mask \<leftarrow> get_mask st;
     update_display (st\<lparr> current_value := current_value st AND new_mask \<rparr>)
   }"

text \<open>
  The events of the user interface: a radio button writes \<open>num_bytes_var\<close>, the Signed box
  writes \<open>signed_mode_var\<close>, an accepted edit writes the text variable of its field; the
  write trace then runs the callback.
\<close>

definition select_num_bytes :: "int \<Rightarrow> bit_calc \<Rightarrow> bit_calc option" where
  "select_num_bytes b st = on_num_bytes_change (st\<lparr> num_bytes_var := b \<rparr>)"

definition toggle_signed_mode :: "bit_calc \<Rightarrow> bit_calc option" where
  "toggle_signed_mode st = update_display (st\<lparr> signed_mode_var := \<not> signed_mode_var st \<rparr>)"

fun write_var :: "source \<Rightarrow> string \<Rightarrow> bit_calc \<Rightarrow> bit_calc" where
  "write_var Hex s st = st\<lparr> hex_var := s \<rparr>"
| "write_var Dec s st = st\<lparr> dec_var := s \<rparr>"
| "write_var Oct s st = st\<lparr> oct_var := s \<rparr>"
| "write_var Bin s st = st\<lparr> bin_var := s \<rparr>"

definition edit_text :: "nat \<Rightarrow> source \<Rightarrow> string \<Rightarrow> bit_calc \<Rightarrow> bit_calc option" where
  "edit_text max_str_digits src s st = update_from_entry max_str_digits src (write_var src s st)"

section \<open>Bitwise operations\<close>

definition shift_left :: "bit_calc \<Rightarrow> bit_calc option" where
  "shift_left st =
     (let amount = shift_amount_var st in
      if amount < 0 then Some st
      else do {
        mask \<leftarrow> get_mask st;
        shifted \<leftarrow> py_lshift (current_value st) amount;
        update_display (st\<lparr> current_value := shifted AND mask \<rparr>)
      })"

definition shift_right_logical :: "bit_calc \<Rightarrow> bit_calc option" where
  "shift_right_logical st =
     (let amount = shift_amount_var st in
      if amount < 0 then Some st
      else do {
        mask \<leftarrow> get_mask st;
        shifted \<leftarrow> py_rshift (current_value st) amount;
        update_display (st\<lparr> current_value := shifted AND mask \<rparr>)
      })"

text \<open>
  The loop of \<open>_shift_right_arithmetic\<close>, one bit per pass. It is entered only after
  \<open>_get_mask\<close> has returned and \<open>num_bits\<close> is not 0, so the count \<open>num_bits - 1\<close> of
  its left shift is never negative.
\<close>

primrec asr_loop :: "nat \<Rightarrow> bool \<Rightarrow> int \<Rightarrow> int \<Rightarrow> int" where
  "asr_loop 0 msb_is_set num_bits val = val"
| "asr_loop (Suc k) msb_is_set num_bits val =
     asr_loop k msb_is_set num_bits
       (if msb_is_set then drop_bit 1 val OR push_bit (nat (num_bits - 1)) 1
        else drop_bit 1 val)"

definition shift_right_arithmetic :: "bit_calc \<Rightarrow> bit_calc option" where
  "shift_right_arithmetic st =
     (let amount = shift_amount_var st in
      if amount < 0 then Some st
      else do {
        let num_bits = num_bytes_var st * 8;
        mask \<leftarrow> get_mask st;
        if num_bits = 0 then update_display (st\<lparr> current_value := 0 \<rparr>)
        else do {
          top \<leftarrow> py_rshift (current_value st) (num_bits - 1);
          let msb_is_set = (top AND 1 \<noteq> 0);
          let val = asr_loop (nat amount) msb_is_set num_bits (current_value st);
          update_display (st\<lparr> current_value := val AND mask \<rparr>)
        }
      })"

definition rotate_left :: "bit_calc \<Rightarrow> bit_calc option" where
  "rotate_left st =
     (let amount = shift_amount_var st in
      if amount < 0 then Some st
      else
        let num_bits = num_bytes_var st * 8 in
        if num_bits = 0 then Some st
        else do {
          mask \<leftarrow> get_mask st;
          let amount = amount mod num_bits;
          let val = current_value st AND mask;
          hi \<leftarrow> py_lshift val amount;
          lo \<leftarrow> py_rshift val (num_bits - amount);
          let rotated = (hi OR lo) AND mask;
          update_display (st\<lparr> current_value := rotated \<rparr>)
        })"

definition rotate_right :: "bit_calc \<Rightarrow> bit_calc option" where
  "rotate_right st =
     (let amount = shift_amount_var st in
      if amount < 0 then Some st
      else
        let num_bits = num_bytes_var st * 8 in
        if num_bits = 0 then Some st
        else do {
          mask \<leftarrow> get_mask st;
          let amount = amount mod num_bits;
          let val = current_value st AND mask;
          lo \<leftarrow> py_rshift val amount;
          hi \<leftarrow> py_lshift val (num_bits - amount);
          let rotated = (lo OR hi) AND mask;
          update_display (st\<lparr> current_value := rotated \<rparr>)
        })"

definition invert_bits :: "bit_calc \<Rightarrow> bit_calc option" where
  "invert_bits st = do {
     mask \<leftarrow> get_mask st;
     update_display (st\<lparr> current_value := (NOT (current_value st)) AND mask \<rparr>)
   }"

text \<open>
  The loop of \<open>_reverse_bits\<close> runs over \<open>range(num_bits)\<close>; both shift counts in its body
  are between 0 and \<open>num_bits - 1\<close>.
\<close>

definition reverse_loop :: "int \<Rightarrow> int \<Rightarrow> int" where
  "reverse_loop num_bits val =
     fold (\<lambda>i reversed_val.
             if drop_bit i val AND 1 \<noteq> 0
             then reversed_val OR push_bit (nat (num_bits - 1 - int i)) 1
             else reversed_val)
       [0..<nat num_bits] 0"

definition reverse_bits :: "bit_calc \<Rightarrow> bit_calc option" where
  "reverse_bits st = do {
     let num_bits = num_bytes_var st * 8;
     mask \<leftarrow> get_mask st;
     let val = current_value st AND mask;
     update_display (st\<lparr> current_value := reverse_loop num_bits val \<rparr>)
   }"

definition clear_bits :: "bit_calc \<Rightarrow> bit_calc option" where
  "clear_bits st = update_display (st\<lparr> current_value := 0 \<rparr>)"

section \<open>The rules of the specification for text\<close>







text \<open>The number that a string of digits denotes, most significant digit first.\<close>

definition digits_value :: "nat \<Rightarrow> string \<Rightarrow> nat" where
  "digits_value base ds = foldl (\<lambda>a c. a * base + digit_value c) 0 ds"

text \<open>
  The specification's four cases for a signed decimal literal \<open>n\<close> at width \<open>w\<close>: stored
  as it is when \<open>0 \<le> n < 2 ^ (w - 1)\<close>, truncated to \<open>n & mask(w)\<close> when
  \<open>n \<ge> 2 ^ (w - 1)\<close>, encoded as \<open>2 ^ w + n\<close> when \<open>- 2 ^ (w - 1) \<le> n < 0\<close>, and truncated
  to \<open>n & mask(w)\<close> below that.
\<close>

definition signed_encode :: "nat \<Rightarrow> int \<Rightarrow> int" where
  "signed_encode w n =
     (if 0 \<le> n then (if n < 2 ^ (w - 1) then n else n AND (2 ^ w - 1))
      else (if - (2 ^ (w - 1)) \<le> n then 2 ^ w + n else n AND (2 ^ w - 1)))"

section \<open>The invariant of the specification\<close>

text \<open>The stored value lies between 0 and \<open>2 ^ width - 1\<close>.\<close>

definition value_in_range :: "bit_calc \<Rightarrow> bool" where
  "value_in_range st \<longleftrightarrow>
     0 \<le> current_value st \<and> current_value st < 2 ^ nat (num_bytes_var st * 8)"

section \<open>The closed form of the arithmetic shift\<close>

text \<open>
  The specification's rule for \<open>shiftRightArithmetic(v, w, n)\<close>, written from its words,
  to be compared with the loop of the program: with \<open>msb = (v >> (w - 1)) & 1\<close> and
  \<open>mask(w) = 2 ^ w - 1\<close>, the result is \<open>(v >> n) | (mask(w) & ~(mask(w) >> n))\<close> for
  \<open>msb = 1\<close> and \<open>n < w\<close>, \<open>mask(w)\<close> for \<open>msb = 1\<close> and \<open>n \<ge> w\<close>, and the logical
  shift \<open>(v >> n) & mask(w)\<close> for \<open>msb = 0\<close>.
\<close>

definition asr_closed_form :: "int \<Rightarrow> nat \<Rightarrow> nat \<Rightarrow> int" where
  "asr_closed_form v w n =
     (let m = 2 ^ w - 1; msb = drop_bit (w - 1) v AND 1 in
      if msb = 1 then (if n < w then drop_bit n v OR (m AND NOT (drop_bit n m)) else m)
      else drop_bit n v AND m)"

section \<open>The initial state\<close>

text \<open>
  The object as the first lines of \<open>__init__\<close> leave it, before any setting is loaded;
  the concrete states below are built from it.
\<close>

definition init_state :: bit_calc where
  "init_state =
     \<lparr> current_value = 0, is_updating = False, num_bytes_var = 0,
       hex_var = [], dec_var = [], oct_var = [], bin_var = [],
       bit_vars = replicate 64 0, signed_mode_var = False, shift_amount_var = 1 \<rparr>"

section \<open>Basic facts about the mask and the display\<close>

lemma py_lshift_one: "0 \<le> n \<Longrightarrow> py_lshift 1 n = Some (2 ^ nat n)"
  by (simp add: py_lshift_def)

lemma get_mask_Some: "0 \<le> num_bytes_var st \<Longrightarrow> get_mask st = Some (mask (nat (num_bytes_var st * 8)))"
  by (simp add: get_mask_def py_lshift_one mask_eq_exp_minus_1)

lemma and_one_neq_0: "(x AND 1 \<noteq> 0) = odd (x::int)"
  by (simp add: and_one_eq odd_iff_mod_2_eq_one)

lemma signed_dec_text_eq:
  "0 < num_bits \<Longrightarrow> signed_dec_text v num_bits =
     Some (if bit v (nat (num_bits - 1)) then py_str (v - 2 ^ nat num_bits) else py_str v)"
  by (simp add: signed_dec_text_def py_rshift_def py_lshift_def and_one_neq_0 bit_iff_odd_drop_bit)

lemma update_display_eq:
  assumes "0 < num_bytes_var st"
  shows "update_display st =
    Some (st\<lparr> is_updating := False,
              hex_var := format_int 16 (current_value st AND mask (nat (num_bytes_var st * 8))),
              dec_var := (if signed_mode_var st \<and> bit (current_value st AND mask (nat (num_bytes_var st * 8))) (nat (num_bytes_var st * 8 - 1))
                          then py_str ((current_value st AND mask (nat (num_bytes_var st * 8))) - 2 ^ nat (num_bytes_var st * 8))
                          else py_str (current_value st AND mask (nat (num_bytes_var st * 8)))),
              oct_var := format_int 8 (current_value st AND mask (nat (num_bytes_var st * 8))),
              bin_var := format_int 2 (current_value st AND mask (nat (num_bytes_var st * 8))),
              bit_vars := bit_states (current_value st AND mask (nat (num_bytes_var st * 8))) (num_bytes_var st * 8) \<rparr>)"
  using assms
  by (simp add: update_display_def get_mask_Some Let_def signed_dec_text_eq)

lemma update_display_Some:
  "0 < num_bytes_var st \<Longrightarrow> \<exists>st'. update_display st = Some st'"
  by (simp add: update_display_eq)

lemma update_display_keeps:
  assumes "update_display st = Some st'"
  shows "current_value st' = current_value st" "num_bytes_var st' = num_bytes_var st"
    "signed_mode_var st' = signed_mode_var st" "shift_amount_var st' = shift_amount_var st"
    "is_updating st' = False"
  using assms by (auto simp: update_display_def Let_def split: bind_splits if_splits)

section \<open>Negative amounts\<close>

text \<open>
  Claim C9. Each of the five shift and rotate operations returns at its first test when
  the amount is negative: the callback ends normally (no exception) and the whole state,
  the stored value included, is the one it started from. This holds for every state,
  whatever the width.
\<close>

theorem negative_amount_noop:
  assumes "shift_amount_var st < 0"
  shows "shift_left st = Some st \<and> shift_right_logical st = Some st \<and>
    shift_right_arithmetic st = Some st \<and> rotate_left st = Some st \<and> rotate_right st = Some st"
  using assms
  by (simp add: shift_left_def shift_right_logical_def shift_right_arithmetic_def
      rotate_left_def rotate_right_def)

theorem negative_amount_noop_witness:
  "shift_amount_var (init_state\<lparr> current_value := 5, num_bytes_var := 1, shift_amount_var := - 1 \<rparr>) < 0 \<and>
   shift_left (init_state\<lparr> current_value := 5, num_bytes_var := 1, shift_amount_var := - 1 \<rparr>)
     = Some (init_state\<lparr> current_value := 5, num_bytes_var := 1, shift_amount_var := - 1 \<rparr>) \<and>
   rotate_right (init_state\<lparr> current_value := 5, num_bytes_var := 1, shift_amount_var := - 1 \<rparr>)
     = Some (init_state\<lparr> current_value := 5, num_bytes_var := 1, shift_amount_var := - 1 \<rparr>)"
  using negative_amount_noop [of "init_state\<lparr> current_value := 5, num_bytes_var := 1, shift_amount_var := - 1 \<rparr>"]
  by simp

section \<open>Width change\<close>

lemma on_num_bytes_change_eq:
  "0 < num_bytes_var st \<Longrightarrow>
   on_num_bytes_change st =
     update_display (st\<lparr> current_value := current_value st AND mask (nat (num_bytes_var st * 8)) \<rparr>)"
  by (simp add: on_num_bytes_change_def get_mask_Some)

text \<open>
  Claim C7. Selecting \<open>b\<close> bytes, \<open>b\<close> from 1 to 8, leaves the width at \<open>b * 8\<close> bits and
  the stored value at its bitwise AND with \<open>2 ^ (b * 8) - 1\<close>; a stored \<open>0x1FF\<close> at 16
  bits becomes \<open>0xFF\<close> when 8 bits are selected.
\<close>

theorem select_num_bytes_truncates:
  assumes "1 \<le> b" "b \<le> 8"
  shows "map_option num_bytes_var (select_num_bytes b st) = Some b \<and>
         map_option current_value (select_num_bytes b st)
           = Some (current_value st AND (2 ^ nat (b * 8) - 1)) \<and>
         map_option current_value
           (select_num_bytes 1 (st\<lparr> num_bytes_var := 2, current_value := 0x1FF \<rparr>)) = Some 0xFF"
proof -
  have "map_option num_bytes_var (select_num_bytes b st) = Some b"
    using assms by (simp add: select_num_bytes_def on_num_bytes_change_eq update_display_eq)
  moreover have "map_option current_value (select_num_bytes b st)
           = Some (current_value st AND (2 ^ nat (b * 8) - 1))"
    using assms
    by (simp add: select_num_bytes_def on_num_bytes_change_eq update_display_eq mask_eq_exp_minus_1)
  moreover have "map_option current_value
           (select_num_bytes 1 (st\<lparr> num_bytes_var := 2, current_value := 0x1FF \<rparr>)) = Some 0xFF"
    by (simp add: select_num_bytes_def on_num_bytes_change_eq update_display_eq mask_eq_exp_minus_1)
  ultimately show ?thesis by simp
qed

theorem select_num_bytes_truncates_witness:
  "(1::int) \<le> 3 \<and> (3::int) \<le> 8 \<and>
   map_option num_bytes_var (select_num_bytes 3 (init_state\<lparr> num_bytes_var := 8, current_value := 0x123456789A \<rparr>)) = Some 3 \<and>
   map_option current_value (select_num_bytes 3 (init_state\<lparr> num_bytes_var := 8, current_value := 0x123456789A \<rparr>)) = Some 0x56789A"
  using select_num_bytes_truncates [of 3 "init_state\<lparr> num_bytes_var := 8, current_value := 0x123456789A \<rparr>"]
  by simp

section \<open>Bit-level facts\<close>

lemma bit_in_range: "0 \<le> v \<Longrightarrow> v < 2 ^ w \<Longrightarrow> bit (v::int) j \<Longrightarrow> j < w"
  by (metis bit_take_bit_iff take_bit_int_eq_self)

lemma and_mask_in_range: "0 \<le> v \<Longrightarrow> v < 2 ^ w \<Longrightarrow> (v::int) AND mask w = v"
  by (simp add: take_bit_int_eq_self flip: take_bit_eq_mask)

lemma asr_loop_False: "asr_loop k False nb val = drop_bit k val"
  by (induction k arbitrary: val) (simp_all add: drop_bit_drop_bit)

lemma bit_asr_loop_True:
  "0 < nb \<Longrightarrow> bit (asr_loop k True nb val) j \<longleftrightarrow> bit val (j + k) \<or> (j < nat nb \<and> nat nb \<le> j + k)"
proof (induction k arbitrary: val)
  case 0
  then show ?case by auto
next
  case (Suc k)
  have "nat (nb - 1) = nat nb - 1" by simp
  with Suc show ?case
    by (auto simp: bit_simps)
qed

lemma rot_bits:
  fixes x :: int
  assumes "k < w"
  shows "(drop_bit k ((push_bit k (take_bit w x) OR drop_bit (w - k) (take_bit w x)) AND mask w)
          OR push_bit (w - k) ((push_bit k (take_bit w x) OR drop_bit (w - k) (take_bit w x)) AND mask w))
         AND mask w = take_bit w x"
  by (rule bit_eqI) (use assms in \<open>auto simp: bit_simps\<close>)

lemma bit_reverse_fold:
  "m \<le> w \<Longrightarrow>
   bit (fold (\<lambda>i r. if drop_bit i val AND 1 \<noteq> 0 then r OR push_bit (nat (int w - 1 - int i)) 1 else r) [0..<m] acc) j
     \<longleftrightarrow> bit (acc::int) j \<or> (j < w \<and> w - 1 - j < m \<and> bit (val::int) (w - 1 - j))"
proof (induction m)
  case 0
  then show ?case by simp
next
  case (Suc m)
  have n: "nat (int w - 1 - int m) = w - 1 - m" by simp
  have eq: "j < w \<Longrightarrow> (j = w - 1 - m) = (w - 1 - j = m)" using Suc.prems by auto
  from Suc show ?case
    by (auto simp: and_one_neq_0 bit_simps n less_Suc_eq eq simp flip: bit_iff_odd_drop_bit)
qed

lemma bit_reverse_loop:
  "0 \<le> nb \<Longrightarrow> bit (reverse_loop nb val) j \<longleftrightarrow> j < nat nb \<and> bit val (nat nb - 1 - j)"
proof -
  assume "0 \<le> nb"
  then obtain w where nb: "nb = int w" using nonneg_int_cases by blast
  show ?thesis
    using bit_reverse_fold [of w w val 0 j]
    by (auto simp: reverse_loop_def nb)
qed

lemma invert_twice: "NOT (NOT x AND mask w) AND mask w = (x::int) AND mask w"
  by (rule bit_eqI) (auto simp: bit_simps)

lemma invert_masked: "NOT (x AND mask w) AND mask w = NOT (x::int) AND mask w"
  by (rule bit_eqI) (auto simp: bit_simps)


lemma rotate_left_eq:
  assumes "0 < num_bytes_var st" "0 \<le> shift_amount_var st"
  shows "rotate_left st =
    update_display (st\<lparr> current_value :=
      (push_bit (nat (shift_amount_var st mod (num_bytes_var st * 8))) (current_value st AND mask (nat (num_bytes_var st * 8)))
       OR drop_bit (nat (num_bytes_var st * 8) - nat (shift_amount_var st mod (num_bytes_var st * 8)))
            (current_value st AND mask (nat (num_bytes_var st * 8))))
      AND mask (nat (num_bytes_var st * 8)) \<rparr>)"
proof -
  let ?nb = "num_bytes_var st * 8"
  let ?k = "shift_amount_var st mod ?nb"
  have k: "0 \<le> ?k" "?k < ?nb" using assms by simp_all
  then have n: "nat (?nb - ?k) = nat ?nb - nat ?k" by linarith
  have "\<not> ?nb - ?k < 0" using k by linarith
  with assms k show ?thesis
    by (simp add: rotate_left_def get_mask_Some Let_def py_lshift_def py_rshift_def n)
qed

lemma rotate_right_eq:
  assumes "0 < num_bytes_var st" "0 \<le> shift_amount_var st"
  shows "rotate_right st =
    update_display (st\<lparr> current_value :=
      (drop_bit (nat (shift_amount_var st mod (num_bytes_var st * 8))) (current_value st AND mask (nat (num_bytes_var st * 8)))
       OR push_bit (nat (num_bytes_var st * 8) - nat (shift_amount_var st mod (num_bytes_var st * 8)))
            (current_value st AND mask (nat (num_bytes_var st * 8))))
      AND mask (nat (num_bytes_var st * 8)) \<rparr>)"
proof -
  let ?nb = "num_bytes_var st * 8"
  let ?k = "shift_amount_var st mod ?nb"
  have k: "0 \<le> ?k" "?k < ?nb" using assms by simp_all
  then have n: "nat (?nb - ?k) = nat ?nb - nat ?k" by linarith
  have "\<not> ?nb - ?k < 0" using k by linarith
  with assms k show ?thesis
    by (simp add: rotate_right_def get_mask_Some Let_def py_lshift_def py_rshift_def n)
qed

lemma invert_bits_eq:
  "0 < num_bytes_var st \<Longrightarrow>
   invert_bits st = update_display (st\<lparr> current_value := NOT (current_value st) AND mask (nat (num_bytes_var st * 8)) \<rparr>)"
  by (simp add: invert_bits_def get_mask_Some)

lemma reverse_bits_eq:
  "0 < num_bytes_var st \<Longrightarrow>
   reverse_bits st = update_display (st\<lparr> current_value :=
      reverse_loop (num_bytes_var st * 8) (current_value st AND mask (nat (num_bytes_var st * 8))) \<rparr>)"
  by (simp add: reverse_bits_def get_mask_Some Let_def)

lemma set_value_display:
  assumes "0 < num_bytes_var st"
  obtains st' where "update_display (st\<lparr> current_value := x \<rparr>) = Some st'"
    "current_value st' = x" "num_bytes_var st' = num_bytes_var st"
    "shift_amount_var st' = shift_amount_var st"
proof -
  have "0 < num_bytes_var (st\<lparr> current_value := x \<rparr>)" using assms by simp
  then obtain st' where s: "update_display (st\<lparr> current_value := x \<rparr>) = Some st'"
    using update_display_Some by blast
  show ?thesis
    using that [OF s] update_display_keeps [OF s] by simp
qed

lemma and_one_eq_1: "(x AND 1 = 1) = odd (x::int)"
  by (simp add: and_one_eq odd_iff_mod_2_eq_one)

lemma shift_right_logical_eq:
  assumes "0 < num_bytes_var st" "0 \<le> shift_amount_var st"
  shows "shift_right_logical st =
    update_display (st\<lparr> current_value :=
      drop_bit (nat (shift_amount_var st)) (current_value st) AND mask (nat (num_bytes_var st * 8)) \<rparr>)"
  using assms by (simp add: shift_right_logical_def get_mask_Some py_rshift_def)

lemma shift_left_eq:
  assumes "0 < num_bytes_var st" "0 \<le> shift_amount_var st"
  shows "shift_left st =
    update_display (st\<lparr> current_value :=
      push_bit (nat (shift_amount_var st)) (current_value st) AND mask (nat (num_bytes_var st * 8)) \<rparr>)"
  using assms by (simp add: shift_left_def get_mask_Some py_lshift_def)

lemma shift_right_arithmetic_eq:
  assumes "0 < num_bytes_var st" "0 \<le> shift_amount_var st"
  shows "shift_right_arithmetic st =
    update_display (st\<lparr> current_value :=
      asr_loop (nat (shift_amount_var st)) (bit (current_value st) (nat (num_bytes_var st * 8) - 1))
        (num_bytes_var st * 8) (current_value st)
      AND mask (nat (num_bytes_var st * 8)) \<rparr>)"
proof -
  have "nat (num_bytes_var st * 8 - 1) = nat (num_bytes_var st * 8) - 1" by simp
  with assms show ?thesis
    by (simp add: shift_right_arithmetic_def get_mask_Some py_rshift_def Let_def and_one_neq_0
        bit_iff_odd_drop_bit)
qed

lemma asr_value_closed_form:
  assumes "0 < nb" "0 \<le> v" "v < 2 ^ nat nb"
  shows "asr_loop n (bit v (nat nb - 1)) nb v AND mask (nat nb) = asr_closed_form v (nat nb) n"
proof (cases "bit v (nat nb - 1)")
  case True
  have r: "\<And>i. bit v i \<Longrightarrow> i < nat nb" using bit_in_range [OF assms(2,3)] .
  have "asr_loop n True nb v AND mask (nat nb)
      = (if n < nat nb then drop_bit n v OR (mask (nat nb) AND NOT (drop_bit n (mask (nat nb)))) else mask (nat nb))"
    by (rule bit_eqI) (use assms(1) r in \<open>auto simp: bit_asr_loop_True bit_simps add.commute dest: r\<close>)
  with True show ?thesis
    by (simp add: asr_closed_form_def Let_def and_one_eq_1 mask_eq_exp_minus_1 flip: bit_iff_odd_drop_bit)
next
  case False
  then show ?thesis
    by (simp add: asr_closed_form_def Let_def and_one_eq_1 mask_eq_exp_minus_1 asr_loop_False flip: bit_iff_odd_drop_bit)
qed

lemma drop_bit_out_of_range:
  assumes "0 \<le> v" "v < 2 ^ w" "w \<le> n"
  shows "drop_bit n (v::int) = 0"
  by (rule bit_eqI) (use bit_in_range [OF assms(1,2)] assms(3) in \<open>fastforce simp: bit_simps\<close>)

section \<open>Arithmetic shift right\<close>

text \<open>
  Claim C2. For a width of \<open>8 * num_bytes\<close> bits with at least one byte, a stored value
  between 0 and \<open>2 ^ width - 1\<close> and an amount \<open>n \<ge> 0\<close>, the value left by
  \<open>_shift_right_arithmetic\<close> (a loop of \<open>n\<close> one-bit steps) is the closed form of the
  specification: sign bits filled in from the left when the top bit is set, all ones from
  \<open>n \<ge> width\<close> on; when the top bit is clear, the same value as the logical shift leaves,
  which is 0 from \<open>n \<ge> width\<close> on.
\<close>

theorem arithmetic_shift_closed_form:
  assumes "0 < num_bytes_var st"
    and "0 \<le> current_value st" and "current_value st < 2 ^ nat (num_bytes_var st * 8)"
    and "0 \<le> shift_amount_var st"
  shows "map_option current_value (shift_right_arithmetic st)
           = Some (asr_closed_form (current_value st) (nat (num_bytes_var st * 8)) (nat (shift_amount_var st))) \<and>
         (drop_bit (nat (num_bytes_var st * 8) - 1) (current_value st) AND 1 = 0 \<longrightarrow>
            map_option current_value (shift_right_arithmetic st)
              = map_option current_value (shift_right_logical st) \<and>
            (num_bytes_var st * 8 \<le> shift_amount_var st \<longrightarrow>
               map_option current_value (shift_right_arithmetic st) = Some 0))"
proof -
  define w where "w = nat (num_bytes_var st * 8)"
  define n where "n = nat (shift_amount_var st)"
  define v where "v = current_value st"
  define a where "a = asr_loop n (bit v (w - 1)) (num_bytes_var st * 8) v AND mask w"
  define l where "l = drop_bit n v AND mask w"
  have nb: "0 < num_bytes_var st * 8" using assms(1) by simp
  obtain st1 where st1: "update_display (st\<lparr> current_value := a \<rparr>) = Some st1" "current_value st1 = a"
    using set_value_display [OF assms(1)] by blast
  obtain st2 where st2: "update_display (st\<lparr> current_value := l \<rparr>) = Some st2" "current_value st2 = l"
    using set_value_display [OF assms(1)] by blast
  have A: "map_option current_value (shift_right_arithmetic st) = Some a"
    using shift_right_arithmetic_eq [OF assms(1,4)] st1 by (simp add: a_def n_def v_def w_def)
  have L: "map_option current_value (shift_right_logical st) = Some l"
    using shift_right_logical_eq [OF assms(1,4)] st2 by (simp add: l_def n_def v_def w_def)
  have c: "a = asr_closed_form v w n"
    using asr_value_closed_form [OF nb, of v n] assms(2,3) by (simp add: a_def v_def w_def)
  have z: "a = l" if "drop_bit (w - 1) v AND 1 = 0"
    using that unfolding c
    by (simp add: asr_closed_form_def Let_def l_def mask_eq_exp_minus_1)
  have s: "l = 0" if "num_bytes_var st * 8 \<le> shift_amount_var st"
  proof -
    have "w \<le> n" using that by (simp add: w_def n_def nat_mono)
    then have "drop_bit n v = 0"
      using drop_bit_out_of_range [of v w n] assms(2,3) by (simp add: v_def w_def)
    then show ?thesis by (simp add: l_def)
  qed
  have "map_option current_value (shift_right_arithmetic st) = Some (asr_closed_form v w n)"
    unfolding A using c by simp
  moreover have "map_option current_value (shift_right_arithmetic st)
      = map_option current_value (shift_right_logical st)" if "drop_bit (w - 1) v AND 1 = 0"
    unfolding A L using z [OF that] by simp
  moreover have "map_option current_value (shift_right_arithmetic st) = Some 0"
    if "drop_bit (w - 1) v AND 1 = 0" "num_bytes_var st * 8 \<le> shift_amount_var st"
    unfolding A using z [OF that(1)] s [OF that(2)] by simp
  ultimately show ?thesis
    unfolding v_def w_def n_def by blast
qed

theorem arithmetic_shift_closed_form_witness:
  "map_option current_value
     (shift_right_arithmetic (init_state\<lparr> current_value := 0x81, num_bytes_var := 1, shift_amount_var := 1 \<rparr>))
     = Some 0xC0 \<and>
   map_option current_value
     (shift_right_arithmetic (init_state\<lparr> current_value := 0x81, num_bytes_var := 1, shift_amount_var := 8 \<rparr>))
     = Some 0xFF \<and>
   map_option current_value
     (shift_right_arithmetic (init_state\<lparr> current_value := 0x41, num_bytes_var := 1, shift_amount_var := 9 \<rparr>))
     = Some 0"
proof -
  define s3 where "s3 = init_state\<lparr> current_value := 0x41, num_bytes_var := 1, shift_amount_var := 9 \<rparr>"
  have "map_option current_value
     (shift_right_arithmetic (init_state\<lparr> current_value := 0x81, num_bytes_var := 1, shift_amount_var := 1 \<rparr>))
     = Some 0xC0"
    using arithmetic_shift_closed_form [of "init_state\<lparr> current_value := 0x81, num_bytes_var := 1, shift_amount_var := 1 \<rparr>"]
    by (simp add: asr_closed_form_def)
  moreover have "map_option current_value
     (shift_right_arithmetic (init_state\<lparr> current_value := 0x81, num_bytes_var := 1, shift_amount_var := 8 \<rparr>))
     = Some 0xFF"
    using arithmetic_shift_closed_form [of "init_state\<lparr> current_value := 0x81, num_bytes_var := 1, shift_amount_var := 8 \<rparr>"]
    by (simp add: asr_closed_form_def)
  moreover have "map_option current_value (shift_right_arithmetic s3) = Some 0"
  proof -
    have h: "0 < num_bytes_var s3" "0 \<le> current_value s3"
      "current_value s3 < 2 ^ nat (num_bytes_var s3 * 8)" "0 \<le> shift_amount_var s3"
      by (simp_all add: s3_def)
    have p: "drop_bit (nat (num_bytes_var s3 * 8) - 1) (current_value s3) AND 1 = 0"
      "num_bytes_var s3 * 8 \<le> shift_amount_var s3"
      by (simp_all add: s3_def)
    from arithmetic_shift_closed_form [OF h] p show ?thesis by blast
  qed
  ultimately show ?thesis unfolding s3_def by blast
qed

section \<open>Rotation\<close>

text \<open>
  Claim C5. For a width of at least one byte, a stored value between 0 and
  \<open>2 ^ width - 1\<close> and an amount \<open>k\<close> with \<open>0 \<le> k < width\<close>, rotating left by \<open>k\<close> and then
  right by \<open>k\<close> gives the stored value back.
\<close>

theorem rotate_round_trip:
  assumes "0 < num_bytes_var st"
    and "0 \<le> current_value st" and "current_value st < 2 ^ nat (num_bytes_var st * 8)"
    and "0 \<le> shift_amount_var st" and "shift_amount_var st < num_bytes_var st * 8"
  shows "map_option current_value (rotate_left st \<bind> rotate_right) = Some (current_value st)"
proof -
  define w where "w = nat (num_bytes_var st * 8)"
  define k where "k = nat (shift_amount_var st mod (num_bytes_var st * 8))"
  define v where "v = current_value st"
  define r where "r = (push_bit k (v AND mask w) OR drop_bit (w - k) (v AND mask w)) AND mask w"
  define r2 where "r2 = (drop_bit k (r AND mask w) OR push_bit (w - k) (r AND mask w)) AND mask w"
  have k: "k < w" using assms(1,4) by (simp add: nat_less_iff k_def w_def)
  have v: "take_bit w v = v"
    using assms(2,3) by (simp add: take_bit_int_eq_self v_def w_def)
  obtain st1 where st1: "update_display (st\<lparr> current_value := r \<rparr>) = Some st1"
      "current_value st1 = r" "num_bytes_var st1 = num_bytes_var st"
      "shift_amount_var st1 = shift_amount_var st"
    using set_value_display [OF assms(1)] by blast
  have l: "rotate_left st = Some st1"
    using rotate_left_eq [OF assms(1,4)] st1(1) by (simp add: r_def k_def v_def w_def)
  have a1: "0 < num_bytes_var st1" "0 \<le> shift_amount_var st1" using assms(1,4) st1 by simp_all
  obtain st2 where st2: "update_display (st1\<lparr> current_value := r2 \<rparr>) = Some st2"
      "current_value st2 = r2"
    using set_value_display [OF a1(1)] by blast
  have r: "rotate_right st1 = Some st2"
    using rotate_right_eq [OF a1] st1(2,3,4) st2(1) by (simp add: r2_def k_def w_def)
  have "r AND mask w = r" by (simp add: r_def and.assoc)
  then have "r2 = take_bit w v"
    using rot_bits [OF k, of v] by (simp add: take_bit_eq_mask r2_def r_def)
  then show ?thesis using l r st2(2) v by (simp add: v_def)
qed

theorem rotate_round_trip_witness:
  "map_option current_value
     (rotate_left (init_state\<lparr> current_value := 0x81, num_bytes_var := 1, shift_amount_var := 3 \<rparr>)
        \<bind> rotate_right) = Some 0x81"
  using rotate_round_trip [of "init_state\<lparr> current_value := 0x81, num_bytes_var := 1, shift_amount_var := 3 \<rparr>"]
  by simp

section \<open>Reverse and invert\<close>

lemma reverse_loop_twice:
  assumes "0 \<le> nb"
  shows "reverse_loop nb (reverse_loop nb (v AND mask (nat nb)) AND mask (nat nb)) = v AND mask (nat nb)"
proof (rule bit_eqI)
  fix j
  have "j < nat nb \<Longrightarrow> nat nb - 1 - (nat nb - 1 - j) = j" by simp
  then show "bit (reverse_loop nb (reverse_loop nb (v AND mask (nat nb)) AND mask (nat nb))) j
      = bit (v AND mask (nat nb)) j"
    using assms by (auto simp: bit_reverse_loop bit_simps)
qed

text \<open>
  Claim C6. For a width of at least one byte and a stored value between 0 and
  \<open>2 ^ width - 1\<close>, reversing the bits twice gives the value back, and so does inverting
  them twice.
\<close>

theorem reverse_invert_involutions:
  assumes "0 < num_bytes_var st"
    and "0 \<le> current_value st" and "current_value st < 2 ^ nat (num_bytes_var st * 8)"
  shows "map_option current_value (reverse_bits st \<bind> reverse_bits) = Some (current_value st) \<and>
         map_option current_value (invert_bits st \<bind> invert_bits) = Some (current_value st)"
proof -
  define w where "w = nat (num_bytes_var st * 8)"
  define v where "v = current_value st"
  have v: "v AND mask w = v"
    using assms(2,3) by (simp add: and_mask_in_range v_def w_def)
  have nb: "0 \<le> num_bytes_var st * 8" using assms(1) by simp
  have "map_option current_value (reverse_bits st \<bind> reverse_bits) = Some v"
  proof -
    define r where "r = reverse_loop (num_bytes_var st * 8) (v AND mask w)"
    define r2 where "r2 = reverse_loop (num_bytes_var st * 8) (r AND mask w)"
    obtain st1 where st1: "update_display (st\<lparr> current_value := r \<rparr>) = Some st1"
        "current_value st1 = r" "num_bytes_var st1 = num_bytes_var st"
      using set_value_display [OF assms(1)] by blast
    have a1: "0 < num_bytes_var st1" using assms(1) st1 by simp
    obtain st2 where st2: "update_display (st1\<lparr> current_value := r2 \<rparr>) = Some st2"
        "current_value st2 = r2"
      using set_value_display [OF a1] by blast
    have "reverse_bits st = Some st1"
      using reverse_bits_eq [OF assms(1)] st1(1) by (simp add: r_def v_def w_def)
    moreover have "reverse_bits st1 = Some st2"
      using reverse_bits_eq [OF a1] st1(2,3) st2(1) by (simp add: r2_def w_def)
    moreover have "r2 = v"
      using reverse_loop_twice [OF nb, of v] v by (simp add: r2_def r_def w_def)
    ultimately show ?thesis using st2(2) by simp
  qed
  moreover have "map_option current_value (invert_bits st \<bind> invert_bits) = Some v"
  proof -
    define r where "r = NOT v AND mask w"
    define r2 where "r2 = NOT r AND mask w"
    obtain st1 where st1: "update_display (st\<lparr> current_value := r \<rparr>) = Some st1"
        "current_value st1 = r" "num_bytes_var st1 = num_bytes_var st"
      using set_value_display [OF assms(1)] by blast
    have a1: "0 < num_bytes_var st1" using assms(1) st1 by simp
    obtain st2 where st2: "update_display (st1\<lparr> current_value := r2 \<rparr>) = Some st2"
        "current_value st2 = r2"
      using set_value_display [OF a1] by blast
    have "invert_bits st = Some st1"
      using invert_bits_eq [OF assms(1)] st1(1) by (simp add: r_def v_def w_def)
    moreover have "invert_bits st1 = Some st2"
      using invert_bits_eq [OF a1] st1(2,3) st2(1) by (simp add: r2_def w_def)
    moreover have "r2 = v"
      using invert_twice [of v w] v by (simp add: r2_def r_def)
    ultimately show ?thesis using st2(2) by simp
  qed
  ultimately show ?thesis by (simp add: v_def)
qed

theorem reverse_invert_involutions_witness:
  "map_option current_value
     (reverse_bits (init_state\<lparr> current_value := 0x1234, num_bytes_var := 2 \<rparr>) \<bind> reverse_bits) = Some 0x1234 \<and>
   map_option current_value
     (invert_bits (init_state\<lparr> current_value := 0x1234, num_bytes_var := 2 \<rparr>) \<bind> invert_bits) = Some 0x1234"
  using reverse_invert_involutions [of "init_state\<lparr> current_value := 0x1234, num_bytes_var := 2 \<rparr>"]
  by simp

section \<open>Bits above the width\<close>

text \<open>
  Claim C10. Rotate left, rotate right, reverse and invert do not depend on the bits of
  the stored value at or above the width: for a width of at least one byte and an amount
  \<open>n \<ge> 0\<close>, each of them ends in the same state from a stored value \<open>v\<close> (of any sign)
  and from \<open>v AND (2 ^ width - 1)\<close>.
\<close>

theorem high_bits_ignored:
  assumes "0 < num_bytes_var st" and "0 \<le> shift_amount_var st"
  shows "rotate_left (st\<lparr> current_value := current_value st AND (2 ^ nat (num_bytes_var st * 8) - 1) \<rparr>)
           = rotate_left st \<and>
         rotate_right (st\<lparr> current_value := current_value st AND (2 ^ nat (num_bytes_var st * 8) - 1) \<rparr>)
           = rotate_right st \<and>
         reverse_bits (st\<lparr> current_value := current_value st AND (2 ^ nat (num_bytes_var st * 8) - 1) \<rparr>)
           = reverse_bits st \<and>
         invert_bits (st\<lparr> current_value := current_value st AND (2 ^ nat (num_bytes_var st * 8) - 1) \<rparr>)
           = invert_bits st"
proof -
  define w where "w = nat (num_bytes_var st * 8)"
  define st' where "st' = st\<lparr> current_value := current_value st AND mask w \<rparr>"
  have s: "0 < num_bytes_var st'" "0 \<le> shift_amount_var st'"
    "num_bytes_var st' = num_bytes_var st" "shift_amount_var st' = shift_amount_var st"
    "current_value st' = current_value st AND mask w"
    "\<And>x. st'\<lparr> current_value := x \<rparr> = st\<lparr> current_value := x \<rparr>"
    using assms by (simp_all add: st'_def)
  have "rotate_left st' = rotate_left st"
    unfolding rotate_left_eq [OF s(1,2)] rotate_left_eq [OF assms] s(3,4,5,6) w_def [symmetric]
    by (simp add: and.assoc)
  moreover have "rotate_right st' = rotate_right st"
    unfolding rotate_right_eq [OF s(1,2)] rotate_right_eq [OF assms] s(3,4,5,6) w_def [symmetric]
    by (simp add: and.assoc)
  moreover have "reverse_bits st' = reverse_bits st"
    unfolding reverse_bits_eq [OF s(1)] reverse_bits_eq [OF assms(1)] s(3,4,5,6) w_def [symmetric]
    by (simp add: and.assoc)
  moreover have "invert_bits st' = invert_bits st"
    unfolding invert_bits_eq [OF s(1)] invert_bits_eq [OF assms(1)] s(3,4,5,6) w_def [symmetric]
      invert_masked ..
  ultimately show ?thesis by (simp add: st'_def w_def mask_eq_exp_minus_1)
qed

theorem high_bits_ignored_witness:
  "rotate_left (init_state\<lparr> num_bytes_var := 1, shift_amount_var := 3, current_value := 0x81 \<rparr>)
     = rotate_left (init_state\<lparr> num_bytes_var := 1, shift_amount_var := 3, current_value := 0x181 \<rparr>) \<and>
   invert_bits (init_state\<lparr> num_bytes_var := 1, shift_amount_var := 3, current_value := 0x81 \<rparr>)
     = invert_bits (init_state\<lparr> num_bytes_var := 1, shift_amount_var := 3, current_value := 0x181 \<rparr>)"
  using high_bits_ignored [of "init_state\<lparr> num_bytes_var := 1, shift_amount_var := 3, current_value := 0x181 \<rparr>"]
  by simp

section \<open>Parsing and formatting digit strings\<close>


lemma digit_not_special:
  assumes "digit_value c < base" "base \<le> 36"
  shows "c \<noteq> CHR ''_''" "c \<noteq> CHR ''+''" "c \<noteq> CHR ''-''" "\<not> py_isspace c" "\<not> str_isspace c"
  using assms by (auto simp: digit_value_def py_isspace_def str_isspace_def Let_def split: if_splits)

lemma scan_digits_all:
  assumes "\<forall>c\<in>set ds. digit_value c < base" "base \<le> 36"
  shows "scan_digits base ds prev acc cnt =
    Some (foldl (\<lambda>a c. a * base + digit_value c) acc ds, cnt + length ds, last (prev # ds), [])"
  using assms(1)
proof (induction ds arbitrary: prev acc cnt)
  case Nil
  then show ?case by simp
next
  case (Cons c cs)
  then have c: "digit_value c < base" and cs: "\<forall>c\<in>set cs. digit_value c < base"
    by simp_all
  have "c \<noteq> CHR ''_''" using digit_not_special(1) [OF c assms(2)] .
  with c Cons.IH [OF cs] show ?case by simp
qed

lemma skip_base_prefix_digits:
  "\<forall>c\<in>set ds. digit_value c < base \<Longrightarrow> skip_base_prefix base ds = ds"
proof (induction base ds rule: skip_base_prefix.induct)
  case (1 base c0 c1 rest)
  then have "digit_value c1 < base" by simp
  then have "\<not> is_base_prefix base c0 c1"
    by (auto simp: is_base_prefix_def digit_value_def)
  then show ?case by simp
qed simp_all

lemma py_int_digits_core:
  assumes "\<forall>c\<in>set ds. digit_value c < base" "ds \<noteq> []" "base \<le> 36"
    and "base \<in> {2, 8, 16} \<or> length ds \<le> 640 \<or> lim = 0 \<or> length ds \<le> lim"
  shows "(case scan_digits base ds (CHR 0x00) 0 0 of
              None \<Rightarrow> None
            | Some (acc, digits, prev, rest) \<Rightarrow>
                if prev = CHR ''_'' \<or> digits = 0 then None
                else if base \<notin> {2, 8, 16} \<and> 640 < digits \<and> 0 < lim \<and> lim < digits
                  then None
                else if dropWhile py_isspace rest \<noteq> [] then None
                else Some (if neg then - int acc else int acc))
         = Some (if neg then - int (digits_value base ds) else int (digits_value base ds))"
proof -
  have "last ds \<in> set ds" using assms(2) by simp
  then have "digit_value (last ds) < base" using assms(1) by simp
  then have l: "last ds \<noteq> CHR ''_''" using digit_not_special(1) assms(3) by blast
  show ?thesis
    unfolding scan_digits_all [OF assms(1,3)]
    using assms(2,4) l by (auto simp: digits_value_def)
qed

lemma py_int_digits:
  assumes "\<forall>c\<in>set ds. digit_value c < base" "ds \<noteq> []" "base \<le> 36"
    and "base \<in> {2, 8, 16} \<or> length ds \<le> 640 \<or> lim = 0 \<or> length ds \<le> lim"
  shows "py_int lim base ds = Some (int (digits_value base ds))"
proof -
  obtain c cs where ds: "ds = c # cs" using assms(2) by (cases ds) auto
  then have c: "digit_value c < base" using assms(1) by simp
  note sp = digit_not_special [OF c assms(3)]
  have d: "dropWhile py_isspace ds = ds" using ds sp by simp
  have s: "split_sign ds = (False, ds)" using ds sp by (simp add: split_sign_def)
  have h: "\<not> (ds \<noteq> [] \<and> hd ds = CHR ''_'')"
    using ds sp by simp
  show ?thesis
    unfolding py_int_def d s Let_def prod.case skip_base_prefix_digits [OF assms(1)]
    using h py_int_digits_core [OF assms, of False] by simp
qed

lemma py_int_minus_digits:
  assumes "\<forall>c\<in>set ds. digit_value c < base" "ds \<noteq> []" "base \<le> 36"
    and "base \<in> {2, 8, 16} \<or> length ds \<le> 640 \<or> lim = 0 \<or> length ds \<le> lim"
  shows "py_int lim base (CHR ''-'' # ds) = Some (- int (digits_value base ds))"
proof -
  obtain c cs where ds: "ds = c # cs" using assms(2) by (cases ds) auto
  then have c: "digit_value c < base" using assms(1) by simp
  note sp = digit_not_special [OF c assms(3)]
  have d: "dropWhile py_isspace (CHR ''-'' # ds) = CHR ''-'' # ds" by (simp add: py_isspace_def)
  have s: "split_sign (CHR ''-'' # ds) = (True, ds)" by (simp add: split_sign_def)
  have h: "\<not> (ds \<noteq> [] \<and> hd ds = CHR ''_'')"
    using ds sp by simp
  show ?thesis
    unfolding py_int_def d s Let_def prod.case skip_base_prefix_digits [OF assms(1)]
    using h py_int_digits_core [OF assms, of True] by simp
qed

lemma digit_value_digit_char: "d < 16 \<Longrightarrow> digit_value (digit_char d) = d"
  by (auto simp: digit_value_def digit_char_def Let_def)

lemma to_digits_nonempty: "to_digits b n \<noteq> []"
  by (subst to_digits.simps) simp

lemma to_digits_digits:
  "2 \<le> b \<Longrightarrow> b \<le> 16 \<Longrightarrow> \<forall>c\<in>set (to_digits b n). digit_value c < b"
proof (induction b n rule: to_digits.induct)
  case (1 b n)
  show ?case
  proof (cases "n < b \<or> b < 2")
    case True
    with "1.prems" have "n < 16" "n < b" by auto
    with True show ?thesis by (subst to_digits.simps) (simp add: digit_value_digit_char)
  next
    case False
    have "n mod b < b" "n mod b < 16" using "1.prems"
      by (auto intro: less_le_trans [of "n mod b" b 16])
    with False 1 show ?thesis by (subst to_digits.simps) (simp add: digit_value_digit_char)
  qed
qed

lemma to_digits_value:
  "2 \<le> b \<Longrightarrow> b \<le> 16 \<Longrightarrow> digits_value b (to_digits b n) = n"
proof (induction b n rule: to_digits.induct)
  case (1 b n)
  show ?case
  proof (cases "n < b \<or> b < 2")
    case True
    with "1.prems" have "n < 16" by auto
    with True show ?thesis
      by (subst to_digits.simps) (simp add: digits_value_def digit_value_digit_char)
  next
    case False
    have "n mod b < 16" using "1.prems"
      by (auto intro: less_le_trans [of "n mod b" b 16])
    with False 1 show ?thesis
      by (subst to_digits.simps) (simp add: digits_value_def digit_value_digit_char)
  qed
qed

lemma to_digits_length:
  "2 \<le> b \<Longrightarrow> n < b ^ k \<Longrightarrow> 0 < k \<Longrightarrow> length (to_digits b n) \<le> k"
proof (induction b n arbitrary: k rule: to_digits.induct)
  case (1 b n)
  show ?case
  proof (cases "n < b \<or> b < 2")
    case True
    with "1.prems" show ?thesis by (subst to_digits.simps) simp
  next
    case False
    then have nb: "b \<le> n" by simp
    obtain j where k: "k = Suc j" using "1.prems"(3) by (cases k) auto
    have "0 < j"
    proof (rule ccontr)
      assume "\<not> 0 < j"
      with k "1.prems"(2) nb show False by simp
    qed
    moreover have "n div b < b ^ j"
      using "1.prems"(1,2) k by (simp add: less_mult_imp_div_less mult.commute)
    ultimately have "length (to_digits b (n div b)) \<le> j"
      using "1.IH" [OF False "1.prems"(1)] by simp
    with False k show ?thesis by (subst to_digits.simps) simp
  qed
qed

lemma py_strip_id:
  assumes "s \<noteq> []" "\<not> str_isspace (hd s)" "\<not> str_isspace (last s)"
  shows "py_strip s = s"
proof -
  have "dropWhile str_isspace s = s" using assms(1,2) by (cases s) auto
  moreover have "dropWhile str_isspace (rev s) = rev s"
    using assms(1,3) by (cases "rev s") (auto simp: last_rev [symmetric] simp del: last_rev)
  ultimately show ?thesis by (simp add: py_strip_def)
qed

lemma py_strip_digits:
  assumes "\<forall>c\<in>set ds. digit_value c < base" "ds \<noteq> []" "base \<le> 36"
  shows "py_strip ds = ds" "py_strip (CHR ''-'' # ds) = CHR ''-'' # ds"
proof -
  have "hd ds \<in> set ds" "last ds \<in> set ds" using assms(2) by simp_all
  then have h: "\<not> str_isspace (hd ds)" "\<not> str_isspace (last ds)"
    using assms(1,3) digit_not_special(5) by blast+
  show "py_strip ds = ds" using py_strip_id [OF assms(2) h] .
  have "\<not> str_isspace (CHR ''-'')" by (simp add: str_isspace_def)
  then show "py_strip (CHR ''-'' # ds) = CHR ''-'' # ds"
    using py_strip_id [of "CHR ''-'' # ds"] h(2) assms(2) by simp
qed

lemma py_int_py_str:
  assumes "\<bar>n\<bar> < 10 ^ k" "0 < k" "k \<le> 640"
  shows "py_int lim 10 (py_strip (py_str n)) = Some n" "py_strip (py_str n) \<noteq> []"
proof -
  define ds where "ds = to_digits 10 (nat \<bar>n\<bar>)"
  have d: "\<forall>c\<in>set ds. digit_value c < 10" unfolding ds_def by (rule to_digits_digits) simp_all
  have ne: "ds \<noteq> []" unfolding ds_def by (rule to_digits_nonempty)
  have "nat \<bar>n\<bar> < 10 ^ k" using assms(1) by (simp add: nat_less_iff)
  then have "length ds \<le> k" unfolding ds_def using to_digits_length [of 10 "nat \<bar>n\<bar>" k] assms(2) by simp
  then have len: "length ds \<le> 640" using assms(3) by simp
  have val: "digits_value 10 ds = nat \<bar>n\<bar>" unfolding ds_def by (rule to_digits_value) simp_all
  note st = py_strip_digits [OF d ne]
  have l: "(10::nat) \<in> {2, 8, 16} \<or> length ds \<le> 640 \<or> lim = 0 \<or> length ds \<le> lim" using len by simp
  show "py_int lim 10 (py_strip (py_str n)) = Some n"
  proof (cases "n < 0")
    case True
    then have "py_str n = CHR ''-'' # ds" by (simp add: py_str_def format_int_def ds_def)
    with True st py_int_minus_digits [OF d ne _ l] val show ?thesis by simp
  next
    case False
    then have "py_str n = ds" by (simp add: py_str_def format_int_def ds_def)
    with False st py_int_digits [OF d ne _ l] val show ?thesis by simp
  qed
  show "py_strip (py_str n) \<noteq> []"
    using st ne by (cases "n < 0") (simp_all add: py_str_def format_int_def ds_def)
qed

section \<open>Signed decimal entry\<close>

lemma py_int_empty: "py_int lim base [] = None"
  by (simp add: py_int_def split_sign_def)

lemma entry_value_signed:
  assumes "0 < num_bytes_var st" "signed_mode_var st" "py_int lim 10 s = Some n"
  shows "entry_value lim Dec st s = Some (signed_encode (nat (num_bytes_var st * 8)) n)"
proof -
  have "nat (num_bytes_var st * 8 - 1) = nat (num_bytes_var st * 8) - 1" by simp
  with assms show ?thesis
    by (simp add: entry_value_def signed_encode_def py_lshift_def get_mask_Some mask_eq_exp_minus_1)
qed

lemma update_from_entry_signed:
  assumes "0 < num_bytes_var st" "signed_mode_var st" "\<not> is_updating st"
    and "py_int lim 10 (py_strip (dec_var st)) = Some n"
  shows "map_option current_value (update_from_entry lim Dec st)
    = Some (signed_encode (nat (num_bytes_var st * 8)) n)"
proof -
  define e where "e = signed_encode (nat (num_bytes_var st * 8)) n"
  have ne: "py_strip (dec_var st) \<noteq> []" using assms(4) py_int_empty by auto
  have ev: "entry_value lim Dec st (py_strip (dec_var st)) = Some e"
    unfolding e_def by (rule entry_value_signed [OF assms(1,2,4)])
  obtain st' where "update_display (st\<lparr> current_value := e \<rparr>) = Some st'" "current_value st' = e"
    using set_value_display [OF assms(1)] by blast
  then show ?thesis
    using assms(3) ne ev by (simp add: update_from_entry_def e_def)
qed

lemma update_display_dec_var:
  assumes "0 < num_bytes_var st" "update_display st = Some st'"
  shows "dec_var st' =
    (if signed_mode_var st \<and> bit (current_value st AND mask (nat (num_bytes_var st * 8))) (nat (num_bytes_var st * 8) - 1)
     then py_str ((current_value st AND mask (nat (num_bytes_var st * 8))) - 2 ^ nat (num_bytes_var st * 8))
     else py_str (current_value st AND mask (nat (num_bytes_var st * 8))))"
proof -
  have "nat (num_bytes_var st * 8 - 1) = nat (num_bytes_var st * 8) - 1" by simp
  then show ?thesis
    using assms(2) unfolding update_display_eq [OF assms(1)] by auto
qed

text \<open>
  Claim C3. In signed mode, at a width of at least one byte, when \<open>int()\<close> reads the
  stripped text of the decimal field as the number \<open>n\<close>, the stored value becomes the one
  the four cases give: \<open>n\<close> itself for \<open>0 \<le> n < 2 ^ (w - 1)\<close>, \<open>n AND (2 ^ w - 1)\<close> for
  \<open>n \<ge> 2 ^ (w - 1)\<close>, \<open>2 ^ w + n\<close> for \<open>- 2 ^ (w - 1) \<le> n < 0\<close>, and \<open>n AND (2 ^ w - 1)\<close> for
  \<open>n < - 2 ^ (w - 1)\<close>.
\<close>

theorem signed_decimal_parse:
  assumes "0 < num_bytes_var st" "signed_mode_var st" "\<not> is_updating st"
    and "py_int lim 10 (py_strip text) = Some n"
  shows "map_option current_value (edit_text lim Dec text st)
    = Some (signed_encode (nat (num_bytes_var st * 8)) n)"
  using update_from_entry_signed [of "write_var Dec text st" lim n] assms
  by (simp add: edit_text_def)

theorem signed_decimal_parse_witness:
  "map_option current_value
     (edit_text 4300 Dec ''-5'' (init_state\<lparr> num_bytes_var := 1, signed_mode_var := True \<rparr>)) = Some 251 \<and>
   map_option current_value
     (edit_text 4300 Dec ''-200'' (init_state\<lparr> num_bytes_var := 1, signed_mode_var := True \<rparr>)) = Some 56 \<and>
   map_option current_value
     (edit_text 4300 Dec ''100'' (init_state\<lparr> num_bytes_var := 1, signed_mode_var := True \<rparr>)) = Some 100 \<and>
   map_option current_value
     (edit_text 4300 Dec ''300'' (init_state\<lparr> num_bytes_var := 1, signed_mode_var := True \<rparr>)) = Some 44"
proof -
  define s where "s = init_state\<lparr> num_bytes_var := 1, signed_mode_var := True \<rparr>"
  have h: "0 < num_bytes_var s" "signed_mode_var s" "\<not> is_updating s"
    by (simp_all add: s_def init_state_def)
  have p: "py_int 4300 10 (py_strip ''-5'') = Some (- 5)" "py_int 4300 10 (py_strip ''-200'') = Some (- 200)"
    "py_int 4300 10 (py_strip ''100'') = Some 100" "py_int 4300 10 (py_strip ''300'') = Some 300"
    by code_simp+
  have w: "nat (num_bytes_var s * 8) = 8" by (simp add: s_def)
  show ?thesis
    using signed_decimal_parse [OF h p(1)] signed_decimal_parse [OF h p(2)]
      signed_decimal_parse [OF h p(3)] signed_decimal_parse [OF h p(4)]
    unfolding w s_def [symmetric] by (simp add: signed_encode_def)
qed

lemma msb_iff:
  assumes "0 \<le> v" "v < 2 ^ w" "0 < w"
  shows "bit (v::int) (w - 1) \<longleftrightarrow> 2 ^ (w - 1) \<le> v"
proof -
  obtain j where w: "w = Suc j" using assms(3) by (cases w) auto
  have "v = take_bit (Suc j) v" using assms(1,2) w by (simp add: take_bit_int_eq_self)
  also have "\<dots> = 2 ^ j * of_bool (bit v j) + take_bit j v" by (rule take_bit_Suc_from_most)
  finally have e: "v = 2 ^ j * of_bool (bit v j) + take_bit j v" .
  have t: "0 \<le> take_bit j v" "take_bit j v < 2 ^ j" by simp_all
  show ?thesis
  proof (cases "bit v j")
    case True
    with e have "v = 2 ^ j + take_bit j v" by simp
    with t(1) have "2 ^ j \<le> v" by linarith
    with True w show ?thesis by simp
  next
    case False
    with e have "v = take_bit j v" by simp
    with t(2) have "v < 2 ^ j" by linarith
    with False w show ?thesis by simp
  qed
qed

text \<open>
  Claim C4. In signed mode, for one to eight bytes and a stored value \<open>v\<close> between 0 and
  \<open>2 ^ w - 1\<close>, the decimal field shows a minus sign and the digits of \<open>2 ^ w - v\<close> when
  bit \<open>w - 1\<close> of \<open>v\<close> is set and the digits of \<open>v\<close> otherwise; reading that text back
  from the decimal field stores \<open>v\<close> again, whatever value \<open>x\<close> was stored in between.
\<close>

theorem signed_decimal_round_trip:
  assumes "1 \<le> num_bytes_var st" "num_bytes_var st \<le> 8"
    and "0 \<le> current_value st" "current_value st < 2 ^ nat (num_bytes_var st * 8)"
    and "signed_mode_var st"
  shows "map_option dec_var (update_display st)
           = Some (if drop_bit (nat (num_bytes_var st * 8) - 1) (current_value st) AND 1 = 1
                   then CHR ''-'' # to_digits 10 (nat (2 ^ nat (num_bytes_var st * 8) - current_value st))
                   else to_digits 10 (nat (current_value st))) \<and>
         map_option current_value
           (update_display st \<bind> (\<lambda>st'. update_from_entry lim Dec (st'\<lparr> current_value := x \<rparr>)))
           = Some (current_value st)"
proof -
  define w where "w = nat (num_bytes_var st * 8)"
  define v where "v = current_value st"
  define sv where "sv = (if bit v (w - 1) then v - 2 ^ w else v)"
  have nb: "0 < num_bytes_var st" using assms(1) by simp
  have w: "0 < w" "w \<le> 64" using assms(1,2) by (simp_all add: w_def)
  have v: "0 \<le> v" "v < 2 ^ w" "v AND mask w = v"
    using assms(3,4) by (simp_all add: v_def w_def and_mask_in_range)
  have p64: "(2::int) ^ w \<le> 2 ^ 64" using w(2) by (intro power_increasing) simp_all
  have phalf: "(2::int) ^ w = 2 * 2 ^ (w - 1)" using w(1) by (cases w) simp_all
  note m = msb_iff [OF v(1,2) w(1)]
  obtain st' where ud: "update_display st = Some st'"
    using update_display_Some [OF nb] by blast
  have "dec_var st' = py_str sv"
    using update_display_dec_var [OF nb ud] assms(5) v(3)
    unfolding sv_def v_def w_def by simp
  with ud update_display_keeps [OF ud] assms(5)
  have st': "update_display st = Some st'" "dec_var st' = py_str sv"
      "num_bytes_var st' = num_bytes_var st" "signed_mode_var st'" "\<not> is_updating st'"
    by simp_all
  have dec: "py_str sv = (if drop_bit (w - 1) v AND 1 = 1
                   then CHR ''-'' # to_digits 10 (nat (2 ^ w - v)) else to_digits 10 (nat v))"
    using v(1,2) by (simp add: sv_def py_str_def format_int_def and_one_eq bit_iff_odd_drop_bit odd_iff_mod_2_eq_one)
  have "\<bar>sv\<bar> < 10 ^ 20" using v(1,2) p64 by (simp add: sv_def)
  then have parse: "py_int lim 10 (py_strip (py_str sv)) = Some sv"
    using py_int_py_str(1) [of sv 20 lim] by simp
  have enc: "signed_encode w sv = v"
    using v(1,2) m phalf by (simp add: sv_def signed_encode_def)
  define s where "s = st'\<lparr> current_value := x \<rparr>"
  have s: "0 < num_bytes_var s" "signed_mode_var s" "\<not> is_updating s"
      "py_int lim 10 (py_strip (dec_var s)) = Some sv" "nat (num_bytes_var s * 8) = w"
    using st' nb parse by (simp_all add: s_def w_def)
  have "map_option current_value (update_from_entry lim Dec s) = Some v"
    using update_from_entry_signed [OF s(1,2,3,4)] enc s(5) by simp
  then show ?thesis
    using st'(1,2) dec by (simp add: s_def v_def w_def)
qed

theorem signed_decimal_round_trip_witness:
  "map_option dec_var
     (update_display (init_state\<lparr> num_bytes_var := 1, signed_mode_var := True, current_value := 200 \<rparr>))
     = Some ''-56'' \<and>
   map_option current_value
     (update_display (init_state\<lparr> num_bytes_var := 1, signed_mode_var := True, current_value := 200 \<rparr>)
        \<bind> (\<lambda>st'. update_from_entry 4300 Dec (st'\<lparr> current_value := 0 \<rparr>)))
     = Some 200"
proof -
  have d: "to_digits 10 56 = ''56''" by code_simp
  show ?thesis
    using signed_decimal_round_trip [of "init_state\<lparr> num_bytes_var := 1, signed_mode_var := True, current_value := 200 \<rparr>" 4300 0]
    by (simp add: d)
qed

section \<open>Validation of digit texts\<close>















section \<open>The stored value after a transition\<close>

text \<open>
  At a width of at least one byte, every bitwise operation with a non-negative amount,
  the width change and the signed decimal entry leave the stored value between 0 and
  \<open>2 ^ width - 1\<close>, whatever it was before.
\<close>

lemma masked_in_range: "0 \<le> (x::int) AND mask w" "x AND mask w < 2 ^ w"
  by (simp_all flip: take_bit_eq_mask)

lemma reverse_loop_masked:
  "0 \<le> nb \<Longrightarrow> reverse_loop nb val AND mask (nat nb) = reverse_loop nb val"
  by (rule bit_eqI) (auto simp: bit_simps bit_reverse_loop)

lemma signed_encode_in_range:
  assumes "0 < w"
  shows "0 \<le> signed_encode w n" "signed_encode w n < 2 ^ w"
proof -
  obtain j where w: "w = Suc j" using assms by (cases w) auto
  have m: "2 ^ w - 1 = (mask w :: int)" by (simp add: mask_eq_exp_minus_1)
  show "0 \<le> signed_encode w n"
    unfolding signed_encode_def m using masked_in_range(1) [of n w] by (auto simp: w)
  show "signed_encode w n < 2 ^ w"
    unfolding signed_encode_def m using masked_in_range(2) [of n w] by (auto simp: w)
qed

lemma set_value_in_range:
  assumes "0 < num_bytes_var st" "0 \<le> x" "x < 2 ^ nat (num_bytes_var st * 8)"
  shows "\<exists>st'. update_display (st\<lparr> current_value := x \<rparr>) = Some st' \<and> value_in_range st'"
proof -
  obtain st' where "update_display (st\<lparr> current_value := x \<rparr>) = Some st'"
    "current_value st' = x" "num_bytes_var st' = num_bytes_var st"
    using set_value_display [OF assms(1)] by blast
  with assms(2,3) show ?thesis by (simp add: value_in_range_def)
qed

lemma operations_leave_value_in_range:
  assumes "0 < num_bytes_var st" "0 \<le> shift_amount_var st"
    and "op \<in> {shift_left, shift_right_logical, shift_right_arithmetic, rotate_left, rotate_right,
                invert_bits, reverse_bits, clear_bits, on_num_bytes_change}"
  shows "\<exists>st'. op st = Some st' \<and> value_in_range st'"
proof -
  note r = set_value_in_range [OF assms(1)]
  note m = masked_in_range [of _ "nat (num_bytes_var st * 8)"]
  have nb: "0 \<le> num_bytes_var st * 8" using assms(1) by simp
  have "\<exists>st'. shift_left st = Some st' \<and> value_in_range st'"
    unfolding shift_left_eq [OF assms(1,2)] by (rule r) (rule m)+
  moreover have "\<exists>st'. shift_right_logical st = Some st' \<and> value_in_range st'"
    unfolding shift_right_logical_eq [OF assms(1,2)] by (rule r) (rule m)+
  moreover have "\<exists>st'. shift_right_arithmetic st = Some st' \<and> value_in_range st'"
    unfolding shift_right_arithmetic_eq [OF assms(1,2)] by (rule r) (rule m)+
  moreover have "\<exists>st'. rotate_left st = Some st' \<and> value_in_range st'"
    unfolding rotate_left_eq [OF assms(1,2)] by (rule r) (rule m)+
  moreover have "\<exists>st'. rotate_right st = Some st' \<and> value_in_range st'"
    unfolding rotate_right_eq [OF assms(1,2)] by (rule r) (rule m)+
  moreover have "\<exists>st'. invert_bits st = Some st' \<and> value_in_range st'"
    unfolding invert_bits_eq [OF assms(1)] by (rule r) (rule m)+
  moreover have "\<exists>st'. reverse_bits st = Some st' \<and> value_in_range st'"
    unfolding reverse_bits_eq [OF assms(1)]
    by (rule r) (use m [of "reverse_loop (num_bytes_var st * 8) (current_value st AND mask (nat (num_bytes_var st * 8)))"]
        reverse_loop_masked [OF nb] in simp_all)
  moreover have "\<exists>st'. clear_bits st = Some st' \<and> value_in_range st'"
    unfolding clear_bits_def by (rule r) simp_all
  moreover have "\<exists>st'. on_num_bytes_change st = Some st' \<and> value_in_range st'"
    unfolding on_num_bytes_change_eq [OF assms(1)] by (rule r) (rule m)+
  ultimately show ?thesis using assms(3) by blast
qed

lemma signed_entry_leaves_value_in_range:
  assumes "0 < num_bytes_var st" "signed_mode_var st" "\<not> is_updating st"
    and "py_int lim 10 (py_strip (dec_var st)) = Some n"
  shows "\<exists>st'. update_from_entry lim Dec st = Some st' \<and> value_in_range st'"
proof -
  have ne: "py_strip (dec_var st) \<noteq> []" using assms(4) py_int_empty by auto
  have w: "0 < nat (num_bytes_var st * 8)" using assms(1) by simp
  show ?thesis
    using assms(3) ne entry_value_signed [OF assms(1,2,4)]
      set_value_in_range [OF assms(1) signed_encode_in_range [OF w, of n]]
    by (simp add: update_from_entry_def)
qed

text \<open>
  Claim C1 at a concrete input. One byte is selected and \<open>1FF\<close> is typed into the hex
  field. The field then shows \<open>FF\<close>, but the stored value is 511, above
  \<open>2 ^ 8 - 1 = 255\<close>: line 406 of main.pyw stores the result of \<open>int()\<close> without
  masking it, where the signed decimal branch of the same function truncates. The ninth
  bit is not lost: a logical shift right by one leaves the display at \<open>FF\<close> instead of
  \<open>7F\<close>.
\<close>

theorem text_entry_stores_unmasked_value:
  "map_option current_value (select_num_bytes 1 init_state \<bind> edit_text 4300 Hex ''1FF'') = Some 511 \<and>
   map_option num_bytes_var (select_num_bytes 1 init_state \<bind> edit_text 4300 Hex ''1FF'') = Some 1 \<and>
   map_option value_in_range (select_num_bytes 1 init_state \<bind> edit_text 4300 Hex ''1FF'') = Some False \<and>
   map_option hex_var (select_num_bytes 1 init_state \<bind> edit_text 4300 Hex ''1FF'') = Some ''FF'' \<and>
   map_option hex_var
     (select_num_bytes 1 init_state \<bind> edit_text 4300 Hex ''1FF'' \<bind> shift_right_logical) = Some ''FF''"
  by code_simp

end
